theory Spec2Isabelle
  imports Main "HOL-Library.Multiset" "HOL-Library.Sublist" "HOL-Library.List_Lexorder"
begin

section \<open>The mention-suggestion endpoint of \<^verbatim>\<open>server/routes/api/suggestions/suggestions.ts\<close>\<close>

text \<open>
  The handler of \<^verbatim>\<open>suggestions.mention\<close> decides whether the directory is restricted
  for the actor, builds one \<^verbatim>\<open>where\<close> object for users and one for groups, runs four
  lookups under \<^verbatim>\<open>Promise.all\<close> and assembles the response body. The embedding below
  follows the handler line by line. What the handler calls but does not define (the SQL
  store behind Sequelize, the search helper, the presenters, the policy function) is part
  of the environment record, or is modelled where it is introduced.
\<close>

subsection \<open>SQL text functions used by the text filter\<close>

text \<open>
  The text filter is the SQL fragment
  \<^verbatim>\<open>unaccent(LOWER(col)) like unaccent(LOWER(:query))\<close> with \<^verbatim>\<open>:query\<close> replaced by
  \<^verbatim>\<open>%${query}%\<close>. The names, the emails and the query are texts: sequences of Unicode
  code points. \<open>ucs\<close> reads an ASCII literal as such a text.
\<close>

type_synonym ustring = "nat list"

definition ucs :: "string \<Rightarrow> ustring" where
  "ucs s = map of_char s"

text \<open>
  What \<open>LOWER\<close> and \<open>unaccent\<close> do to a character outside ASCII is decided by the
  database: by its locale, and by the rules file of the \<open>unaccent\<close> dictionary, a table
  from a character to the text that replaces it. Both belong to the environment of a
  request. Inside ASCII, \<open>LOWER\<close> maps \<open>A\<close> to \<open>Z\<close> to \<open>a\<close> to \<open>z\<close> and nothing else, and
  the rules file has no rule.
\<close>

record pg_text =
  pg_lower :: "nat \<Rightarrow> nat"
  pg_unaccent_rules :: "(nat \<times> ustring) list"

definition LOWER_chr :: "pg_text \<Rightarrow> nat \<Rightarrow> nat" where
  "LOWER_chr d c =
     (if c < 128 then (if 65 \<le> c \<and> c \<le> 90 then c + 32 else c) else pg_lower d c)"

definition LOWER :: "pg_text \<Rightarrow> ustring \<Rightarrow> ustring" where
  "LOWER d s = map (LOWER_chr d) s"

definition unaccent_chr :: "pg_text \<Rightarrow> nat \<Rightarrow> ustring" where
  "unaccent_chr d c =
     (if c < 128 then [c]
      else case map_of (pg_unaccent_rules d) c of None \<Rightarrow> [c] | Some t \<Rightarrow> t)"

definition unaccent :: "pg_text \<Rightarrow> ustring \<Rightarrow> ustring" where
  "unaccent d s = concat (map (unaccent_chr d) s)"

text \<open>
  The three characters that \<open>LIKE\<close> reads as instructions: \<open>%\<close> (any run of characters),
  \<open>_\<close> (any one character) and the backslash (take the next pattern character literally).
\<close>

definition pct :: nat where "pct = 37"
definition usc :: nat where "usc = 95"
definition bsl :: nat where "bsl = 92"

text \<open>
  \<open>like s p\<close> is SQL's \<open>s LIKE p\<close> with the default escape character. A pattern that ends
  in a lone backslash makes PostgreSQL raise an error at the moment the matcher reaches it;
  \<open>like\<close> gives \<open>False\<close> there. The handler's patterns all end in \<open>%\<close>, so they never
  have that shape: see \<open>dangling_escape\<close> and lemma \<open>handler_pattern_not_dangling\<close>.
\<close>

fun like :: "ustring \<Rightarrow> ustring \<Rightarrow> bool" where
  "like [] [] = True"
| "like (c # cs) [] = False"
| "like [] (p # ps) = (p = pct \<and> like [] ps)"
| "like (c # cs) (p # ps) =
     (if p = pct then like (c # cs) ps \<or> like cs (p # ps)
      else if p = bsl then (case ps of [] \<Rightarrow> False | q # qs \<Rightarrow> c = q \<and> like cs qs)
      else if p = usc then like cs ps
      else c = p \<and> like cs ps)"

fun dangling_escape :: "ustring \<Rightarrow> bool" where
  "dangling_escape [] = False"
| "dangling_escape [p] = (p = bsl)"
| "dangling_escape (p # q # ps) =
     (if p = bsl then dangling_escape ps else dangling_escape (q # ps))"

definition normalise :: "pg_text \<Rightarrow> ustring \<Rightarrow> ustring" where
  \<comment> \<open>\<^verbatim>\<open>unaccent(LOWER(...))\<close>\<close>
  "normalise d s = unaccent d (LOWER d s)"

definition text_match :: "pg_text \<Rightarrow> ustring \<Rightarrow> ustring \<Rightarrow> bool" where
  \<comment> \<open>\<^verbatim>\<open>unaccent(LOWER(col)) like unaccent(LOWER(:query))\<close>\<close>
  "text_match d col pattern = like (normalise d col) (normalise d pattern)"

text \<open>
  A text without any of the three characters, which \<open>LIKE\<close> therefore reads literally.
\<close>

definition plain :: "ustring \<Rightarrow> bool" where
  "plain q = list_all (\<lambda>c. c \<noteq> pct \<and> c \<noteq> usc \<and> c \<noteq> bsl) q"

text \<open>
  Sequelize puts a replacement into the statement as a quoted string literal. For the
  postgres dialect its \<^verbatim>\<open>SqlString.escape\<close> doubles each single quote, which is how the
  literal spells a quote and leaves the value as it is, and rewrites each character
  U+0000 to a backslash followed by the digit \<open>0\<close>. The database reads the literal with
  standard-conforming strings, so these two characters arrive in the pattern.
\<close>

definition SqlString_escape :: "ustring \<Rightarrow> ustring" where
  "SqlString_escape s = concat (map (\<lambda>c. if c = 0 then [bsl, 48] else [c]) s)"

subsection \<open>Models, request and response\<close>

datatype UserRole = Admin | Member | Viewer | Guest

datatype TeamPreference = RestrictExternalDirectory | OtherPreference string

record team =
  team_id :: string
  preferences :: "(TeamPreference \<times> bool) list"

text \<open>
  Modelled from the spec: \<^verbatim>\<open>Team.getPreference\<close> is defined outside this file. The spec
  calls a team preference ``a boolean-valued policy keyed by a fixed identifier'' for which
  ``absent/false means unrestricted'': the stored preferences are the entries of a JSON
  object, and a preference that is not stored reads as \<open>False\<close>.
\<close>

definition getPreference :: "team \<Rightarrow> TeamPreference \<Rightarrow> bool" where
  "getPreference t p = (case map_of (preferences t) p of None \<Rightarrow> False | Some b \<Rightarrow> b)"

text \<open>
  A \<open>User\<close> instance. \<open>user_team\<close> is the loaded association \<^verbatim>\<open>actor.team\<close>, which the
  handler reads with \<^verbatim>\<open>?.\<close> and which may therefore be absent. \<open>user_suspendedAt\<close> is a
  nullable timestamp and \<open>user_email\<close> a nullable column.
\<close>

record user =
  user_id :: string
  user_teamId :: string
  user_name :: ustring
  user_email :: "ustring option"
  user_suspendedAt :: "nat option"
  user_role :: UserRole
  user_team :: "team option"

text \<open>
  Modelled from the spec: the getters \<^verbatim>\<open>isViewer\<close> and \<^verbatim>\<open>isGuest\<close> of the \<open>User\<close> model are
  defined outside this file. The spec gives an actor a ``role classification (one of
  Member, Viewer, Guest, Admin)'' read through ``role flags''.
\<close>

definition isViewer :: "user \<Rightarrow> bool" where
  "isViewer u = (user_role u = Viewer)"

definition isGuest :: "user \<Rightarrow> bool" where
  "isGuest u = (user_role u = Guest)"

record group =
  group_id :: string
  group_teamId :: string
  group_name :: ustring
  group_disableMentions :: bool

record group_user =
  gu_groupId :: string
  gu_userId :: string

datatype Document = Document string
datatype Collection = Collection string

datatype error = LookupFailure string

record pagination =
  offset :: nat
  limit :: nat

text \<open>
  The part of the Koa context the handler reads: \<^verbatim>\<open>ctx.input.body.query\<close> (optional),
  \<^verbatim>\<open>ctx.state.pagination\<close> and \<^verbatim>\<open>ctx.state.auth.user\<close>.
\<close>

record ctx =
  ctx_query :: "ustring option"
  ctx_pagination :: pagination
  ctx_actor :: user

text \<open>
  Modelled from the spec: the presenters \<^verbatim>\<open>presentDocument\<close>, \<^verbatim>\<open>presentUser\<close> and
  \<^verbatim>\<open>presentGroup\<close> are defined outside this file; the spec describes them as ``pure
  functions turning a domain entity + actor into a client-facing representation'', the
  user's one ``gated by'' the two flags. A presented value is the presenter applied to its
  arguments, kept as a term.
\<close>

record present_options =
  includeEmail :: bool
  includeDetails :: bool

datatype PresentedDocument = presentDocument Document
datatype PresentedUser = presentUser user present_options
datatype PresentedGroup = presentGroup group

record data =
  documents :: "PresentedDocument list"
  users :: "PresentedUser list"
  groups :: "PresentedGroup list"
  collections :: "Collection list"

record body =
  body_pagination :: pagination
  body_data :: data

subsection \<open>The store: \<^verbatim>\<open>where\<close> objects and \<^verbatim>\<open>findAll\<close>\<close>

text \<open>
  The \<^verbatim>\<open>where\<close> objects the handler builds have a fixed set of keys, so each is a record:
  a key that the handler may leave out is an \<open>option\<close>. The \<^verbatim>\<open>id\<close> key holds either a
  value (\<^verbatim>\<open>id: actor.id\<close>) or \<^verbatim>\<open>{ [Op.in]: [...] }\<close>. The \<^verbatim>\<open>Op.and\<close> key holds the SQL
  literals of the text filter: for users the \<^verbatim>\<open>Op.or\<close> of two literals, for groups one.
\<close>

datatype id_clause = Eq string | In "string list"

datatype user_literal = email_like | name_like

datatype group_literal = group_name_like

record user_where =
  uw_teamId :: string
  uw_suspendedAt :: "nat option"
  uw_and :: "user_literal list option"
  uw_id :: "id_clause option"

record group_where =
  gw_teamId :: string
  gw_disableMentions :: bool
  gw_and :: "group_literal option"
  gw_id :: "id_clause option"

fun id_holds :: "id_clause option \<Rightarrow> string \<Rightarrow> bool" where
  "id_holds None i = True"
| "id_holds (Some (Eq j)) i = (i = j)"
| "id_holds (Some (In js)) i = (i \<in> set js)"

text \<open>
  A literal over a \<open>NULL\<close> column is \<open>NULL\<close>, and a row is returned only where the whole
  condition is true: a user without an email can match by name only.
\<close>

fun user_literal_holds :: "pg_text \<Rightarrow> ustring \<Rightarrow> user \<Rightarrow> user_literal \<Rightarrow> bool" where
  "user_literal_holds d pattern u email_like =
     (case user_email u of None \<Rightarrow> False | Some e \<Rightarrow> text_match d e pattern)"
| "user_literal_holds d pattern u name_like = text_match d (user_name u) pattern"

fun group_literal_holds :: "pg_text \<Rightarrow> ustring \<Rightarrow> group \<Rightarrow> group_literal \<Rightarrow> bool" where
  "group_literal_holds d pattern g group_name_like = text_match d (group_name g) pattern"

definition user_where_holds :: "pg_text \<Rightarrow> user_where \<Rightarrow> ustring \<Rightarrow> user \<Rightarrow> bool" where
  "user_where_holds d w pattern u =
     (user_teamId u = uw_teamId w \<and>
      user_suspendedAt u = uw_suspendedAt w \<and>
      (case uw_and w of None \<Rightarrow> True
       | Some lits \<Rightarrow> list_ex (user_literal_holds d pattern u) lits) \<and>
      id_holds (uw_id w) (user_id u))"

definition group_where_holds :: "pg_text \<Rightarrow> group_where \<Rightarrow> ustring \<Rightarrow> group \<Rightarrow> bool" where
  "group_where_holds d w pattern g =
     (group_teamId g = gw_teamId w \<and>
      group_disableMentions g = gw_disableMentions w \<and>
      (case gw_and w of None \<Rightarrow> True | Some lit \<Rightarrow> group_literal_holds d pattern g lit) \<and>
      id_holds (gw_id w) (group_id g))"

text \<open>
  A table is the list of its rows in the order in which the store happens to scan them.
  \<^verbatim>\<open>findAll({ where, order: [["name", "ASC"]], replacements, offset, limit })\<close> keeps the
  rows that satisfy \<^verbatim>\<open>where\<close>, orders them by name and by nothing else (rows of equal
  name stay in scan order), skips \<^verbatim>\<open>offset\<close> rows and returns at most \<^verbatim>\<open>limit\<close>. Names
  are compared by code point.
\<close>

definition User_findAll ::
  "pg_text \<Rightarrow> user list \<Rightarrow> user_where \<Rightarrow> ustring \<Rightarrow> nat \<Rightarrow> nat \<Rightarrow> user list" where
  "User_findAll d table w pattern off lim =
     take lim (drop off (sort_key user_name (filter (user_where_holds d w pattern) table)))"

definition Group_findAll ::
  "pg_text \<Rightarrow> group list \<Rightarrow> group_where \<Rightarrow> ustring \<Rightarrow> nat \<Rightarrow> nat \<Rightarrow> group list" where
  "Group_findAll d table w pattern off lim =
     take lim (drop off (sort_key group_name (filter (group_where_holds d w pattern) table)))"

definition GroupUser_findAll :: "group_user list \<Rightarrow> string list \<Rightarrow> group_user list" where
  \<comment> \<open>\<^verbatim>\<open>where: { groupId: { [Op.in]: actorGroupIds } }\<close>\<close>
  "GroupUser_findAll table groupIds = filter (\<lambda>gu. gu_groupId gu \<in> set groupIds) table"

subsection \<open>The environment of a request\<close>

datatype StatusFilter = Published | Archived | Draft

datatype store_call = GroupUser_call | User_call | Group_call

datatype lookup = Documents | Users | Groups | Collections

text \<open>
  Everything a run of the handler depends on besides the request: the three tables and
  the text functions of the database; for each kind of store call, whether it is rejected; the outcome of \<^verbatim>\<open>actor.groupIds()\<close> and
  of the two searches of \<^verbatim>\<open>SearchHelper\<close>, as functions of the arguments the handler passes;
  the time at which each of the four promises of the fan-out settles; and the policy
  function \<^verbatim>\<open>can\<close>.
\<close>

record env =
  User_table :: "user list"
  Group_table :: "group list"
  GroupUser_table :: "group_user list"
  pg :: pg_text
  store_fault :: "store_call \<Rightarrow> error option"
  groupIds :: "user \<Rightarrow> error + string list"
  searchTitlesForUser ::
    "user \<Rightarrow> ustring option \<Rightarrow> nat \<Rightarrow> nat \<Rightarrow> StatusFilter list \<Rightarrow> error + Document list"
  searchCollectionsForUser ::
    "user \<Rightarrow> ustring option \<Rightarrow> nat \<Rightarrow> nat \<Rightarrow> error + Collection list"
  settledAt :: "lookup \<Rightarrow> nat"
  can :: "user \<Rightarrow> string \<Rightarrow> user \<Rightarrow> bool"

definition store_result :: "env \<Rightarrow> store_call \<Rightarrow> 'a \<Rightarrow> error + 'a" where
  "store_result e c rows = (case store_fault e c of Some err \<Rightarrow> Inl err | None \<Rightarrow> Inr rows)"

subsection \<open>JavaScript built-ins the handler uses\<close>

definition truthy :: "ustring option \<Rightarrow> bool" where
  \<comment> \<open>\<^verbatim>\<open>if (query)\<close>: \<^verbatim>\<open>undefined\<close> and the empty string are falsy\<close>
  "truthy q = (case q of None \<Rightarrow> False | Some s \<Rightarrow> s \<noteq> [])"

definition replacement :: "ustring option \<Rightarrow> ustring" where
  \<comment> \<open>\<^verbatim>\<open>replacements: { query: `%${query}%` }\<close>, as it arrives in the statement\<close>
  "replacement q =
     SqlString_escape
       (pct # (case q of None \<Rightarrow> ucs ''undefined'' | Some s \<Rightarrow> s) @ [pct])"

text \<open>
  The query as \<open>LIKE\<close> gets it between the two \<open>%\<close> of the pattern: escaped by Sequelize
  and normalised by the database. An absent query counts as the empty text.
\<close>

definition normalised_query :: "pg_text \<Rightarrow> ustring option \<Rightarrow> ustring" where
  "normalised_query d q =
     normalise d (SqlString_escape (case q of None \<Rightarrow> [] | Some s \<Rightarrow> s))"

definition new_Set :: "'a list \<Rightarrow> 'a list" where
  \<comment> \<open>\<^verbatim>\<open>[...new Set(xs)]\<close>: each value once, in order of first insertion\<close>
  "new_Set xs = fold (\<lambda>x acc. if x \<in> set acc then acc else acc @ [x]) xs []"

text \<open>
  \<^verbatim>\<open>Promise.all\<close> over the four lookups: fulfilled with the four values when all four are
  fulfilled, and otherwise rejected with the reason of the promise that is rejected first,
  that is, of the rejected one that settles earliest.
\<close>

definition rejections ::
  "(error + 'a) \<Rightarrow> (error + 'b) \<Rightarrow> (error + 'c) \<Rightarrow> (error + 'd) \<Rightarrow> (lookup \<times> error) list" where
  "rejections d u g c =
     (case d of Inl e \<Rightarrow> [(Documents, e)] | Inr _ \<Rightarrow> []) @
     (case u of Inl e \<Rightarrow> [(Users, e)] | Inr _ \<Rightarrow> []) @
     (case g of Inl e \<Rightarrow> [(Groups, e)] | Inr _ \<Rightarrow> []) @
     (case c of Inl e \<Rightarrow> [(Collections, e)] | Inr _ \<Rightarrow> [])"

definition first_rejection :: "(lookup \<Rightarrow> nat) \<Rightarrow> (lookup \<times> error) list \<Rightarrow> error" where
  "first_rejection t rs = snd (arg_min_list (\<lambda>r. t (fst r)) rs)"

definition Promise_all ::
  "(lookup \<Rightarrow> nat) \<Rightarrow> (error + 'a) \<Rightarrow> (error + 'b) \<Rightarrow> (error + 'c) \<Rightarrow> (error + 'd)
     \<Rightarrow> error + ('a \<times> 'b \<times> 'c \<times> 'd)" where
  "Promise_all t d u g c =
     (case d of Inl _ \<Rightarrow> Inl (first_rejection t (rejections d u g c)) | Inr dv \<Rightarrow>
     (case u of Inl _ \<Rightarrow> Inl (first_rejection t (rejections d u g c)) | Inr uv \<Rightarrow>
     (case g of Inl _ \<Rightarrow> Inl (first_rejection t (rejections d u g c)) | Inr gv \<Rightarrow>
     (case c of Inl _ \<Rightarrow> Inl (first_rejection t (rejections d u g c)) | Inr cv \<Rightarrow>
        Inr (dv, uv, gv, cv)))))"

subsection \<open>The handler\<close>

definition restrictDirectory :: "user \<Rightarrow> bool" where
  \<comment> \<open>lines 29-31\<close>
  "restrictDirectory actor =
     ((isViewer actor \<or> isGuest actor) \<and>
      (case user_team actor of None \<Rightarrow> False
       | Some t \<Rightarrow> getPreference t RestrictExternalDirectory))"

definition userWhere_text :: "user \<Rightarrow> ustring option \<Rightarrow> user_where" where
  \<comment> \<open>lines 40-61\<close>
  "userWhere_text actor query =
     (let userWhere = \<lparr>uw_teamId = user_teamId actor, uw_suspendedAt = None,
                       uw_and = None, uw_id = None\<rparr>
      in if truthy query then userWhere\<lparr>uw_and := Some [email_like, name_like]\<rparr>
         else userWhere)"

definition groupWhere_text :: "user \<Rightarrow> ustring option \<Rightarrow> group_where" where
  \<comment> \<open>lines 64-76\<close>
  "groupWhere_text actor query =
     (let groupWhere = \<lparr>gw_teamId = user_teamId actor, gw_disableMentions = False,
                        gw_and = None, gw_id = None\<rparr>
      in if truthy query then groupWhere\<lparr>gw_and := Some group_name_like\<rparr>
         else groupWhere)"

definition scope ::
  "env \<Rightarrow> user \<Rightarrow> bool \<Rightarrow> string list \<Rightarrow> user_where \<Rightarrow> group_where
     \<Rightarrow> error + (user_where \<times> group_where)" where
  \<comment> \<open>lines 79-121\<close>
  "scope e actor restrict actorGroupIds userWhere groupWhere =
     (if restrict \<and> length actorGroupIds > 0 then
        (case store_result e GroupUser_call
                (GroupUser_findAll (GroupUser_table e) actorGroupIds) of
           Inl err \<Rightarrow> Inl err
         | Inr groupUsers \<Rightarrow>
             (let allowedUserIds = new_Set (map gu_userId groupUsers) @ [user_id actor]
              in Inr (userWhere\<lparr>uw_id := Some (In allowedUserIds)\<rparr>,
                      groupWhere\<lparr>gw_id := Some (In actorGroupIds)\<rparr>)))
      else if restrict \<and> length actorGroupIds = 0 then
        Inr (userWhere\<lparr>uw_id := Some (Eq (user_id actor))\<rparr>,
             groupWhere\<lparr>gw_id := Some (In [])\<rparr>)
      else Inr (userWhere, groupWhere))"

definition fan_out ::
  "env \<Rightarrow> ctx \<Rightarrow> user_where \<Rightarrow> group_where
     \<Rightarrow> error + (Document list \<times> user list \<times> group list \<times> Collection list)" where
  \<comment> \<open>lines 123-145\<close>
  "fan_out e c userWhere groupWhere =
     (let query = ctx_query c; off = offset (ctx_pagination c);
          lim = limit (ctx_pagination c); actor = ctx_actor c
      in Promise_all (settledAt e)
           (searchTitlesForUser e actor query off lim [Published])
           (store_result e User_call
              (User_findAll (pg e) (User_table e) userWhere (replacement query) off lim))
           (store_result e Group_call
              (Group_findAll (pg e) (Group_table e) groupWhere (replacement query) off lim))
           (searchCollectionsForUser e actor query off lim))"

text \<open>
  The lookups of the fan-out that are rejected, with their reasons, in the order of the
  array passed to \<^verbatim>\<open>Promise.all\<close>. Whether a store call is rejected does not depend on the
  rows it would have returned.
\<close>

definition lookup_rejections :: "env \<Rightarrow> ctx \<Rightarrow> (lookup \<times> error) list" where
  "lookup_rejections e c =
     rejections
       (searchTitlesForUser e (ctx_actor c) (ctx_query c) (offset (ctx_pagination c))
          (limit (ctx_pagination c)) [Published])
       (store_result e User_call ())
       (store_result e Group_call ())
       (searchCollectionsForUser e (ctx_actor c) (ctx_query c) (offset (ctx_pagination c))
          (limit (ctx_pagination c)))"

definition assemble ::
  "env \<Rightarrow> ctx \<Rightarrow> Document list \<Rightarrow> user list \<Rightarrow> group list \<Rightarrow> Collection list \<Rightarrow> body" where
  \<comment> \<open>lines 147-162\<close>
  "assemble e c ds us gs cs =
     \<lparr>body_pagination = ctx_pagination c,
      body_data =
        \<lparr>documents = map presentDocument ds,
         users = map (\<lambda>u. presentUser u
                    \<lparr>includeEmail = can e (ctx_actor c) ''readEmail'' u,
                     includeDetails = can e (ctx_actor c) ''readDetails'' u\<rparr>) us,
         groups = map presentGroup gs,
         collections = cs\<rparr>\<rparr>"

definition mention :: "env \<Rightarrow> ctx \<Rightarrow> error + body" where
  "mention e c =
     (let query = ctx_query c; actor = ctx_actor c;
          restrict = restrictDirectory actor
      in case (if restrict then groupIds e actor else Inr []) of
           Inl err \<Rightarrow> Inl err
         | Inr actorGroupIds \<Rightarrow>
             (case scope e actor restrict actorGroupIds
                     (userWhere_text actor query) (groupWhere_text actor query) of
                Inl err \<Rightarrow> Inl err
              | Inr (userWhere, groupWhere) \<Rightarrow>
                  (case fan_out e c userWhere groupWhere of
                     Inl err \<Rightarrow> Inl err
                   | Inr (ds, us, gs, cs) \<Rightarrow> Inr (assemble e c ds us gs cs))))"

text \<open>The rows behind the presented users and groups of a response body.\<close>

fun presented_user :: "PresentedUser \<Rightarrow> user" where
  "presented_user (presentUser u opts) = u"

fun presented_group :: "PresentedGroup \<Rightarrow> group" where
  "presented_group (presentGroup g) = g"

definition body_users :: "body \<Rightarrow> user list" where
  "body_users b = map presented_user (users (body_data b))"

definition body_groups :: "body \<Rightarrow> group list" where
  "body_groups b = map presented_group (groups (body_data b))"

text \<open>
  The rows that the base predicates of lines 40-45 and 64-67 admit for an actor: the users
  of the actor's team that are not suspended, and the groups of the actor's team that have
  mentions enabled.
\<close>

definition candidate_user :: "user \<Rightarrow> user \<Rightarrow> bool" where
  "candidate_user actor u = (user_teamId u = user_teamId actor \<and> user_suspendedAt u = None)"

definition candidate_group :: "user \<Rightarrow> group \<Rightarrow> bool" where
  "candidate_group actor g = (group_teamId g = user_teamId actor \<and> \<not> group_disableMentions g)"

subsection \<open>A sample workspace\<close>

text \<open>
  A database whose locale lower-cases the letters of ISO-8859-1, with a part of the rules
  file of the \<open>unaccent\<close> extension: its rules for the letters and for a few symbols of
  ISO-8859-1.
\<close>

definition latin1 :: pg_text where
  "latin1 =
     \<lparr>pg_lower = (\<lambda>c. if 192 \<le> c \<and> c \<le> 222 \<and> c \<noteq> 215 then c + 32 else c),
      pg_unaccent_rules =
        [(170, ucs ''a''), (186, ucs ''o''), (188, ucs '' 1/4''), (189, ucs '' 1/2''),
         (190, ucs '' 3/4''),
         (192, ucs ''A''), (193, ucs ''A''), (194, ucs ''A''), (195, ucs ''A''),
         (196, ucs ''A''), (197, ucs ''A''), (198, ucs ''AE''), (199, ucs ''C''),
         (200, ucs ''E''), (201, ucs ''E''), (202, ucs ''E''), (203, ucs ''E''),
         (204, ucs ''I''), (205, ucs ''I''), (206, ucs ''I''), (207, ucs ''I''),
         (209, ucs ''N''),
         (210, ucs ''O''), (211, ucs ''O''), (212, ucs ''O''), (213, ucs ''O''),
         (214, ucs ''O''), (216, ucs ''O''),
         (217, ucs ''U''), (218, ucs ''U''), (219, ucs ''U''), (220, ucs ''U''),
         (221, ucs ''Y''), (223, ucs ''ss''),
         (224, ucs ''a''), (225, ucs ''a''), (226, ucs ''a''), (227, ucs ''a''),
         (228, ucs ''a''), (229, ucs ''a''), (230, ucs ''ae''), (231, ucs ''c''),
         (232, ucs ''e''), (233, ucs ''e''), (234, ucs ''e''), (235, ucs ''e''),
         (236, ucs ''i''), (237, ucs ''i''), (238, ucs ''i''), (239, ucs ''i''),
         (241, ucs ''n''),
         (242, ucs ''o''), (243, ucs ''o''), (244, ucs ''o''), (245, ucs ''o''),
         (246, ucs ''o''), (248, ucs ''o''),
         (249, ucs ''u''), (250, ucs ''u''), (251, ucs ''u''), (252, ucs ''u''),
         (253, ucs ''y''), (255, ucs ''y'')]\<rparr>"

text \<open>
  One team with directory isolation switched on. Ann is a viewer and belongs to the groups
  Staff and Quiet; Bob and the suspended Sue are members of Staff; Jos\'e belongs to Board;
  Gil is a guest without email and without groups. The group Quiet has mentions disabled.
\<close>

definition team_T1 :: team where
  "team_T1 = \<lparr>team_id = ''T1'', preferences = [(RestrictExternalDirectory, True)]\<rparr>"

definition user_row :: "string \<Rightarrow> string \<Rightarrow> string option \<Rightarrow> UserRole \<Rightarrow> user" where
  "user_row i n m r =
     \<lparr>user_id = i, user_teamId = ''T1'', user_name = ucs n, user_email = map_option ucs m,
      user_suspendedAt = None, user_role = r, user_team = None\<rparr>"

definition user_ann :: user where
  "user_ann = user_row ''u1'' ''Ann'' (Some ''ann@example.com'') Viewer"

definition user_bob :: user where
  "user_bob = user_row ''u2'' ''Bob'' (Some ''bob@example.com'') Member"

definition user_jose :: user where
  "user_jose = (user_row ''u3'' ''Jos'' (Some ''j@example.com'') Member)
                 \<lparr>user_name := ucs ''Jos'' @ [233]\<rparr>"

definition user_anna :: user where
  "user_anna = user_row ''u4'' ''Ann'' (Some ''anna@example.com'') Member"

definition user_sue :: user where
  "user_sue = (user_row ''u5'' ''Sue'' (Some ''sue@example.com'') Member)
                \<lparr>user_suspendedAt := Some 1\<rparr>"

definition user_gil :: user where
  "user_gil = user_row ''u6'' ''Gil'' None Guest"

definition group_row :: "string \<Rightarrow> string \<Rightarrow> bool \<Rightarrow> group" where
  "group_row i n d =
     \<lparr>group_id = i, group_teamId = ''T1'', group_name = ucs n, group_disableMentions = d\<rparr>"

definition group_staff :: group where "group_staff = group_row ''g1'' ''Staff'' False"
definition group_board :: group where "group_board = group_row ''g2'' ''Board'' False"
definition group_quiet :: group where "group_quiet = group_row ''g3'' ''Quiet'' True"

definition sample_env :: env where
  "sample_env =
     \<lparr>User_table = [user_sue, user_jose, user_bob, user_gil, user_ann],
      Group_table = [group_staff, group_quiet, group_board],
      GroupUser_table =
        [\<lparr>gu_groupId = ''g1'', gu_userId = ''u2''\<rparr>, \<lparr>gu_groupId = ''g1'', gu_userId = ''u1''\<rparr>,
         \<lparr>gu_groupId = ''g3'', gu_userId = ''u1''\<rparr>, \<lparr>gu_groupId = ''g1'', gu_userId = ''u5''\<rparr>,
         \<lparr>gu_groupId = ''g2'', gu_userId = ''u3''\<rparr>],
      pg = latin1,
      store_fault = (\<lambda>_. None),
      groupIds = (\<lambda>u. Inr (if user_id u = ''u1'' then [''g1'', ''g3''] else [])),
      searchTitlesForUser = (\<lambda>_ _ _ _ _. Inr [Document ''d1'']),
      searchCollectionsForUser = (\<lambda>_ _ _ _. Inr [Collection ''c1'']),
      settledAt = (\<lambda>l. case l of Documents \<Rightarrow> 4 | Users \<Rightarrow> 2 | Groups \<Rightarrow> 3
                              | Collections \<Rightarrow> 1),
      can = (\<lambda>a _ u. user_id a = user_id u)\<rparr>"

definition request :: "user \<Rightarrow> string option \<Rightarrow> nat \<Rightarrow> nat \<Rightarrow> ctx" where
  \<comment> \<open>the authenticated user comes with the team loaded\<close>
  "request a q off lim =
     \<lparr>ctx_query = map_option ucs q, ctx_pagination = \<lparr>offset = off, limit = lim\<rparr>,
      ctx_actor = a\<lparr>user_team := Some team_T1\<rparr>\<rparr>"

text \<open>
  The same workspace with a store that rejects every \<^verbatim>\<open>User.findAll\<close> and a collection
  search that fails; the collection search settles first.
\<close>

definition failing_env :: env where
  "failing_env =
     sample_env
       \<lparr>store_fault := (\<lambda>call. if call = User_call then Some (LookupFailure ''users'')
                               else None),
        searchCollectionsForUser := (\<lambda>_ _ _ _. Inl (LookupFailure ''collections''))\<rparr>"

text \<open>A users table with two rows of the same name.\<close>

definition twins_env :: env where
  "twins_env = sample_env\<lparr>User_table := [user_ann, user_anna]\<rparr>"

section \<open>Properties\<close>

subsection \<open>\<open>LIKE\<close>, \<open>LOWER\<close> and \<open>unaccent\<close>\<close>

lemma metas_distinct [simp]:
  "pct \<noteq> usc" "pct \<noteq> bsl" "usc \<noteq> bsl" "usc \<noteq> pct" "bsl \<noteq> pct" "bsl \<noteq> usc"
  "pct \<noteq> 0" "0 \<noteq> pct"
  by (simp_all add: pct_def usc_def bsl_def)

lemma like_empty_pattern: "like s [] \<longleftrightarrow> s = []"
  by (cases s) simp_all

lemma like_pct: "like s (pct # p) \<longleftrightarrow> (\<exists>a b. s = a @ b \<and> like b p)"
proof (induction s)
  case Nil
  then show ?case by simp
next
  case (Cons c cs)
  have "like (c # cs) (pct # p) \<longleftrightarrow> like (c # cs) p \<or> like cs (pct # p)"
    by simp
  also have "\<dots> \<longleftrightarrow> like (c # cs) p \<or> (\<exists>a b. cs = a @ b \<and> like b p)"
    using Cons.IH by simp
  also have "\<dots> \<longleftrightarrow> (\<exists>a b. c # cs = a @ b \<and> like b p)"
    by (auto simp: Cons_eq_append_conv)
  finally show ?case .
qed

lemma like_pct_skip: "like s p \<Longrightarrow> like s (pct # p)"
  unfolding like_pct by (rule exI[of _ "[]"]) simp

lemma like_only_pct: "like s [pct]"
proof -
  have "s = s @ [] \<and> like [] []" by simp
  then show ?thesis unfolding like_pct by blast
qed




lemma like_any: "like s [pct, pct, pct]"
  by (intro like_pct_skip like_only_pct)

lemma normalise_append: "normalise d (a @ b) = normalise d a @ normalise d b"
  by (simp add: normalise_def LOWER_def unaccent_def)

lemma normalise_pct: "normalise d [pct] = [pct]"
  by (simp add: normalise_def LOWER_def unaccent_def LOWER_chr_def unaccent_chr_def pct_def)

lemma SqlString_escape_append:
  "SqlString_escape (a @ b) = SqlString_escape a @ SqlString_escape b"
  by (simp add: SqlString_escape_def)

lemma SqlString_escape_pct: "SqlString_escape [pct] = [pct]"
  by (simp add: SqlString_escape_def)

lemma normalise_replacement:
  "normalise d (replacement (Some q)) = pct # normalise d (SqlString_escape q) @ [pct]"
proof -
  have "replacement (Some q) = SqlString_escape ([pct] @ q @ [pct])"
    by (simp add: replacement_def)
  then show ?thesis
    by (simp only: SqlString_escape_append SqlString_escape_pct normalise_append normalise_pct)
       simp
qed


lemma text_match_pct: "text_match d col (replacement (Some [pct]))"
  by (simp add: text_match_def normalise_replacement SqlString_escape_pct normalise_pct like_any)

lemma dangling_escape_before_pct: "\<not> dangling_escape (q @ [pct])"
  by (induction q rule: dangling_escape.induct) auto

lemma handler_pattern_not_dangling: "\<not> dangling_escape (normalise d (replacement q))"
proof -
  have "replacement q
          = SqlString_escape (pct # (case q of None \<Rightarrow> ucs ''undefined'' | Some s \<Rightarrow> s)) @ [pct]"
    by (simp add: replacement_def SqlString_escape_def)
  then show ?thesis
    by (simp only: normalise_append normalise_pct dangling_escape_before_pct not_False_eq_True)
qed


text \<open>
  The sample database: a query of the one character U+0000 arrives as an escaped \<open>0\<close> and
  matches a name with that digit; the ordinal indicator and the fraction one half have
  rules of their own.
\<close>

lemma nul_query_matches_zero:
  "text_match latin1 (ucs ''Neo0'') (replacement (Some [0]))
   \<and> \<not> plain (normalised_query latin1 (Some [0]))"
  by code_simp

lemma latin1_symbols:
  "normalise latin1 [186] = ucs ''o'' \<and> normalise latin1 [189] = ucs '' 1/2''"
  by code_simp

subsection \<open>What \<^verbatim>\<open>findAll\<close> returns\<close>

lemma set_User_findAll:
  "set (User_findAll d table w p off lim) \<subseteq> {u \<in> set table. user_where_holds d w p u}"
proof -
  have "set (User_findAll d table w p off lim)
          \<subseteq> set (sort_key user_name (filter (user_where_holds d w p) table))"
    unfolding User_findAll_def
    by (meson set_take_subset set_drop_subset subset_trans)
  then show ?thesis by auto
qed

lemma set_Group_findAll:
  "set (Group_findAll d table w p off lim) \<subseteq> {g \<in> set table. group_where_holds d w p g}"
proof -
  have "set (Group_findAll d table w p off lim)
          \<subseteq> set (sort_key group_name (filter (group_where_holds d w p) table))"
    unfolding Group_findAll_def
    by (meson set_take_subset set_drop_subset subset_trans)
  then show ?thesis by auto
qed

lemma length_User_findAll: "length (User_findAll d table w p off lim) \<le> lim"
  by (simp add: User_findAll_def)

lemma length_Group_findAll: "length (Group_findAll d table w p off lim) \<le> lim"
  by (simp add: Group_findAll_def)

subsection \<open>Steps of the handler\<close>

lemma set_fold_insert_new:
  "set (fold (\<lambda>x acc. if x \<in> set acc then acc else acc @ [x]) xs acc) = set xs \<union> set acc"
  by (induction xs arbitrary: acc) auto

lemma set_new_Set: "set (new_Set xs) = set xs"
  by (simp add: new_Set_def set_fold_insert_new)

lemma scope_keeps_base:
  assumes "scope e actor r G uw gw = Inr (uw', gw')"
  shows "uw_teamId uw' = uw_teamId uw" and "uw_suspendedAt uw' = uw_suspendedAt uw"
    and "uw_and uw' = uw_and uw" and "gw_teamId gw' = gw_teamId gw"
    and "gw_disableMentions gw' = gw_disableMentions gw" and "gw_and gw' = gw_and gw"
  using assms
  by (auto simp: scope_def Let_def store_result_def split: if_splits option.splits)

lemma scope_unrestricted:
  "scope e actor False G uw gw = Inr (uw, gw)"
  by (simp add: scope_def)

lemma scope_no_groups:
  "scope e actor True [] uw gw =
     Inr (uw\<lparr>uw_id := Some (Eq (user_id actor))\<rparr>, gw\<lparr>gw_id := Some (In [])\<rparr>)"
  by (simp add: scope_def)

lemma scope_groups:
  assumes "G \<noteq> []" and "scope e actor True G uw gw = Inr (uw', gw')"
  shows "uw' = uw\<lparr>uw_id := Some (In (new_Set (map gu_userId
                  (GroupUser_findAll (GroupUser_table e) G)) @ [user_id actor]))\<rparr>"
    and "gw' = gw\<lparr>gw_id := Some (In G)\<rparr>"
  using assms
  by (auto simp: scope_def Let_def store_result_def split: if_splits option.splits)

lemma fan_out_Inr:
  assumes "fan_out e c uw gw = Inr (ds, us, gs, cs)"
  shows "us = User_findAll (pg e) (User_table e) uw (replacement (ctx_query c))
                (offset (ctx_pagination c)) (limit (ctx_pagination c))"
    and "gs = Group_findAll (pg e) (Group_table e) gw (replacement (ctx_query c))
                (offset (ctx_pagination c)) (limit (ctx_pagination c))"
  using assms
  by (auto simp: fan_out_def Let_def Promise_all_def store_result_def
           split: sum.splits option.splits)

lemma body_users_assemble: "body_users (assemble e c ds us gs cs) = us"
  by (simp add: body_users_def assemble_def comp_def)

lemma body_groups_assemble: "body_groups (assemble e c ds us gs cs) = gs"
  by (simp add: body_groups_def assemble_def comp_def)

lemma mention_InrE:
  assumes "mention e c = Inr b"
  obtains G uw gw where
    "(if restrictDirectory (ctx_actor c) then groupIds e (ctx_actor c) else Inr []) = Inr G"
    "scope e (ctx_actor c) (restrictDirectory (ctx_actor c)) G
       (userWhere_text (ctx_actor c) (ctx_query c))
       (groupWhere_text (ctx_actor c) (ctx_query c)) = Inr (uw, gw)"
    "body_users b = User_findAll (pg e) (User_table e) uw (replacement (ctx_query c))
                (offset (ctx_pagination c)) (limit (ctx_pagination c))"
    "body_groups b = Group_findAll (pg e) (Group_table e) gw (replacement (ctx_query c))
                (offset (ctx_pagination c)) (limit (ctx_pagination c))"
proof -
  let ?a = "ctx_actor c"
  from assms obtain G where G:
    "(if restrictDirectory ?a then groupIds e ?a else Inr []) = Inr G"
    by (cases "if restrictDirectory ?a then groupIds e ?a else Inr []")
       (auto simp: mention_def Let_def)
  from assms G obtain uw gw where S:
    "scope e ?a (restrictDirectory ?a) G (userWhere_text ?a (ctx_query c))
       (groupWhere_text ?a (ctx_query c)) = Inr (uw, gw)"
    by (cases "scope e ?a (restrictDirectory ?a) G (userWhere_text ?a (ctx_query c))
       (groupWhere_text ?a (ctx_query c))")
       (auto simp: mention_def Let_def)
  from assms G S obtain ds us gs cs where F:
    "fan_out e c uw gw = Inr (ds, us, gs, cs)" and B: "b = assemble e c ds us gs cs"
    by (cases "fan_out e c uw gw") (auto simp: mention_def Let_def)
  show thesis
    using that[OF G S] fan_out_Inr[OF F] B
    by (simp add: body_users_assemble body_groups_assemble)
qed

lemma not_isl_Inr: "\<not> isl x \<Longrightarrow> \<exists>y. x = Inr y"
  by (cases x) auto

lemma scope_succeeds:
  "store_fault e GroupUser_call = None \<Longrightarrow> \<exists>uw' gw'. scope e a r G uw gw = Inr (uw', gw')"
  by (simp add: scope_def store_result_def Let_def)

lemma restrictDirectory_iff:
  "restrictDirectory a \<longleftrightarrow>
     (user_role a = Viewer \<or> user_role a = Guest) \<and>
     (\<exists>t. user_team a = Some t \<and> getPreference t RestrictExternalDirectory)"
  by (auto simp: restrictDirectory_def isViewer_def isGuest_def split: option.splits)

lemma mention_restricted_InrE:
  assumes "restrictDirectory (ctx_actor c)" and "groupIds e (ctx_actor c) = Inr G"
    and "mention e c = Inr b"
  obtains uw gw where
    "scope e (ctx_actor c) True G (userWhere_text (ctx_actor c) (ctx_query c))
       (groupWhere_text (ctx_actor c) (ctx_query c)) = Inr (uw, gw)"
    "body_users b = User_findAll (pg e) (User_table e) uw (replacement (ctx_query c))
                (offset (ctx_pagination c)) (limit (ctx_pagination c))"
    "body_groups b = Group_findAll (pg e) (Group_table e) gw (replacement (ctx_query c))
                (offset (ctx_pagination c)) (limit (ctx_pagination c))"
proof -
  from assms(3) obtain G' uw gw where
    G': "(if restrictDirectory (ctx_actor c) then groupIds e (ctx_actor c) else Inr []) = Inr G'"
    and S: "scope e (ctx_actor c) (restrictDirectory (ctx_actor c)) G'
       (userWhere_text (ctx_actor c) (ctx_query c))
       (groupWhere_text (ctx_actor c) (ctx_query c)) = Inr (uw, gw)"
    and U: "body_users b = User_findAll (pg e) (User_table e) uw (replacement (ctx_query c))
                (offset (ctx_pagination c)) (limit (ctx_pagination c))"
    and Gr: "body_groups b = Group_findAll (pg e) (Group_table e) gw (replacement (ctx_query c))
                (offset (ctx_pagination c)) (limit (ctx_pagination c))"
    by (rule mention_InrE)
  from G' assms(1,2) have "G' = G" by simp
  with S assms(1) U Gr that show thesis by simp
qed

lemma user_where_holds_id:
  "user_where_holds d (w\<lparr>uw_id := i\<rparr>) p u \<longleftrightarrow>
     user_where_holds d (w\<lparr>uw_id := None\<rparr>) p u \<and> id_holds i (user_id u)"
  by (auto simp: user_where_holds_def)

lemma userWhere_text_no_id: "(userWhere_text a q)\<lparr>uw_id := None\<rparr> = userWhere_text a q"
  by (simp add: userWhere_text_def Let_def)




lemma filter_narrower_shorter:
  assumes "\<And>r. narrow r \<Longrightarrow> wide r"
  shows "length (filter narrow rows) \<le> length (filter wide rows)"
  using assms by (induction rows) auto

subsection \<open>The fan-out\<close>

lemma rejections_store_result:
  "rejections d (store_result e User_call x) (store_result e Group_call y) c
     = rejections d (store_result e User_call ()) (store_result e Group_call ()) c"
  by (simp add: rejections_def store_result_def split: option.splits)

lemma Promise_all_rejected:
  "rejections d u g c \<noteq> [] \<Longrightarrow> Promise_all t d u g c = Inl (first_rejection t (rejections d u g c))"
  by (cases d; cases u; cases g; cases c) (simp_all add: Promise_all_def rejections_def)

lemma fan_out_rejected:
  assumes "lookup_rejections e c \<noteq> []"
  shows "fan_out e c uw gw = Inl (first_rejection (settledAt e) (lookup_rejections e c))"
proof -
  let ?d = "searchTitlesForUser e (ctx_actor c) (ctx_query c) (offset (ctx_pagination c))
          (limit (ctx_pagination c)) [Published]"
  let ?c = "searchCollectionsForUser e (ctx_actor c) (ctx_query c) (offset (ctx_pagination c))
          (limit (ctx_pagination c))"
  let ?u = "store_result e User_call (User_findAll (pg e) (User_table e) uw (replacement (ctx_query c))
     (offset (ctx_pagination c)) (limit (ctx_pagination c)))"
  let ?g = "store_result e Group_call (Group_findAll (pg e) (Group_table e) gw (replacement (ctx_query c))
     (offset (ctx_pagination c)) (limit (ctx_pagination c)))"
  have r: "rejections ?d ?u ?g ?c = lookup_rejections e c"
    unfolding lookup_rejections_def by (rule rejections_store_result)
  with assms have "rejections ?d ?u ?g ?c \<noteq> []" by simp
  from Promise_all_rejected[OF this] r show ?thesis
    by (simp add: fan_out_def Let_def)
qed

lemma first_rejection_is_earliest:
  assumes "rs \<noteq> []"
  shows "\<exists>l. (l, first_rejection t rs) \<in> set rs \<and> (\<forall>r \<in> set rs. t l \<le> t (fst r))"
proof -
  let ?m = "arg_min_list (\<lambda>r. t (fst r)) rs"
  have "?m \<in> set rs" using assms by (rule arg_min_list_in)
  moreover have "t (fst ?m) \<le> t (fst r)" if "r \<in> set rs" for r
  proof -
    have "t (fst ?m) = Min ((\<lambda>r. t (fst r)) ` set rs)"
      using assms by (rule f_arg_min_list_f)
    then show ?thesis using that by simp
  qed
  ultimately show ?thesis
    unfolding first_rejection_def
    by (intro exI[of _ "fst ?m"]) simp
qed

subsection \<open>Independence of the scan order\<close>

lemma sort_key_filter_same_rows:
  fixes f :: "'a \<Rightarrow> 'k::linorder"
  assumes m: "mset xs = mset ys" and d: "distinct (map f (filter Q ys))"
    and PQ: "\<And>x. P x \<Longrightarrow> Q x"
  shows "sort_key f (filter P xs) = sort_key f (filter P ys)"
proof (rule sort_key_inj_key_eq)
  show "mset (filter P xs) = mset (sort_key f (filter P ys))"
    using m by simp
  have "set xs = set ys" using m by (rule mset_eq_setD)
  then have "set (filter P xs) \<subseteq> set (filter Q ys)"
    using PQ by auto
  moreover have "inj_on f (set (filter Q ys))"
    using d by (simp add: distinct_map)
  ultimately show "inj_on f (set (filter P xs))"
    by (rule inj_on_subset[rotated])
  show "sorted (map f (sort_key f (filter P ys)))"
    by simp
qed

lemma scope_same_rows:
  assumes "set gus = set (GroupUser_table e)"
  shows "(\<exists>err. scope (e\<lparr>User_table := us, Group_table := gs, GroupUser_table := gus\<rparr>)
                  a r G uw gw = Inl err \<and> scope e a r G uw gw = Inl err)
       \<or> (\<exists>uw1 uw2 gw'.
            scope (e\<lparr>User_table := us, Group_table := gs, GroupUser_table := gus\<rparr>)
                  a r G uw gw = Inr (uw1, gw') \<and> scope e a r G uw gw = Inr (uw2, gw')
            \<and> user_where_holds (pg e) uw1 = user_where_holds (pg e) uw2)"
proof -
  have "set (GroupUser_findAll gus G) = set (GroupUser_findAll (GroupUser_table e) G)"
    using assms by (simp add: GroupUser_findAll_def)
  then have "set (new_Set (map gu_userId (GroupUser_findAll gus G)))
        = set (new_Set (map gu_userId (GroupUser_findAll (GroupUser_table e) G)))"
    by (simp add: set_new_Set)
  then have "user_where_holds (pg e) (uw\<lparr>uw_id := Some (In
                 (new_Set (map gu_userId (GroupUser_findAll gus G)) @ [user_id a]))\<rparr>)
           = user_where_holds (pg e) (uw\<lparr>uw_id := Some (In
                 (new_Set (map gu_userId (GroupUser_findAll (GroupUser_table e) G))
                    @ [user_id a]))\<rparr>)"
    by (intro ext) (simp add: user_where_holds_def)
  then show ?thesis
    by (cases "store_fault e GroupUser_call")
       (simp_all add: scope_def store_result_def Let_def)
qed

lemma store_result_tables:
  "store_result (e\<lparr>User_table := us, Group_table := gs, GroupUser_table := gus\<rparr>) call x
     = store_result e call x"
  by (simp add: store_result_def)

lemma mention_steps:
  "mention e c =
     (case (if restrictDirectory (ctx_actor c) then groupIds e (ctx_actor c) else Inr []) of
        Inl err \<Rightarrow> Inl err
      | Inr G \<Rightarrow>
          (case scope e (ctx_actor c) (restrictDirectory (ctx_actor c)) G
                  (userWhere_text (ctx_actor c) (ctx_query c))
                  (groupWhere_text (ctx_actor c) (ctx_query c)) of
             Inl err \<Rightarrow> Inl err
           | Inr (uw, gw) \<Rightarrow>
               (case fan_out e c uw gw of
                  Inl err \<Rightarrow> Inl err
                | Inr (ds, us, gs, cs) \<Rightarrow> Inr (assemble e c ds us gs cs))))"
  by (simp add: mention_def Let_def)

lemma fan_out_same_rows:
  assumes u: "mset us = mset (User_table e)" and g: "mset gs = mset (Group_table e)"
    and du: "distinct (map user_name (filter (candidate_user (ctx_actor c)) (User_table e)))"
    and dg: "distinct (map group_name (filter (candidate_group (ctx_actor c)) (Group_table e)))"
    and h: "user_where_holds (pg e) uw1 = user_where_holds (pg e) uw2"
    and cu: "uw_teamId uw2 = user_teamId (ctx_actor c)" "uw_suspendedAt uw2 = None"
    and cg: "gw_teamId gw = user_teamId (ctx_actor c)" "gw_disableMentions gw = False"
  shows "fan_out (e\<lparr>User_table := us, Group_table := gs, GroupUser_table := gus\<rparr>) c uw1 gw
           = fan_out e c uw2 gw"
proof -
  let ?p = "replacement (ctx_query c)"
  have "sort_key user_name (filter (user_where_holds (pg e) uw2 ?p) us)
          = sort_key user_name (filter (user_where_holds (pg e) uw2 ?p) (User_table e))"
    using u du
  proof (rule sort_key_filter_same_rows)
    fix x assume "user_where_holds (pg e) uw2 ?p x"
    then show "candidate_user (ctx_actor c) x"
      using cu by (simp add: user_where_holds_def candidate_user_def)
  qed
  then have U: "User_findAll (pg e) us uw1 ?p off lim = User_findAll (pg e) (User_table e) uw2 ?p off lim"
    for off lim
    by (simp add: User_findAll_def h)
  have "sort_key group_name (filter (group_where_holds (pg e) gw ?p) gs)
          = sort_key group_name (filter (group_where_holds (pg e) gw ?p) (Group_table e))"
    using g dg
  proof (rule sort_key_filter_same_rows)
    fix x assume "group_where_holds (pg e) gw ?p x"
    then show "candidate_group (ctx_actor c) x"
      using cg by (simp add: group_where_holds_def candidate_group_def)
  qed
  then have G: "Group_findAll (pg e) gs gw ?p off lim = Group_findAll (pg e) (Group_table e) gw ?p off lim"
    for off lim
    by (simp add: Group_findAll_def)
  show ?thesis
    by (simp add: fan_out_def Let_def U G store_result_tables)
qed

text \<open>The sample workspace, evaluated.\<close>

lemma map_sum_eq_InrD: "map_sum f g x = Inr y \<Longrightarrow> \<exists>b. x = Inr b \<and> g b = y"
  by (cases x) auto

lemma sample_ann_no_query:
  "\<exists>b. mention sample_env (request user_ann None 0 25) = Inr b
     \<and> body_users b = [user_ann, user_bob] \<and> body_groups b = [group_staff]"
proof -
  have "map_sum id (\<lambda>b. (body_users b, body_groups b))
          (mention sample_env (request user_ann None 0 25))
        = Inr ([user_ann, user_bob], [group_staff])"
    by code_simp
  from map_sum_eq_InrD[OF this] show ?thesis by simp
qed

lemma sample_gil_no_query:
  "\<exists>b. mention sample_env (request user_gil None 0 25) = Inr b
     \<and> body_users b = [user_gil] \<and> body_groups b = []"
proof -
  have "map_sum id (\<lambda>b. (body_users b, body_groups b))
          (mention sample_env (request user_gil None 0 25))
        = Inr ([user_gil], [])"
    by code_simp
  from map_sum_eq_InrD[OF this] show ?thesis by simp
qed

subsection \<open>Base predicates\<close>

text \<open>
  Claim C5. For every query and every scope decision, a user with a non-null suspension
  timestamp never appears in the returned user result set: every user of a response body
  has no suspension timestamp.
\<close>

theorem suspended_users_never_returned:
  assumes "mention e c = Inr b"
  shows "\<forall>u \<in> set (body_users b). user_suspendedAt u = None"
proof
  fix u assume u: "u \<in> set (body_users b)"
  from assms obtain G uw gw where
    S: "scope e (ctx_actor c) (restrictDirectory (ctx_actor c)) G
       (userWhere_text (ctx_actor c) (ctx_query c))
       (groupWhere_text (ctx_actor c) (ctx_query c)) = Inr (uw, gw)"
    and U: "body_users b = User_findAll (pg e) (User_table e) uw (replacement (ctx_query c))
                (offset (ctx_pagination c)) (limit (ctx_pagination c))"
    by (rule mention_InrE)
  from u U have "user_where_holds (pg e) uw (replacement (ctx_query c)) u"
    using set_User_findAll by fastforce
  then have "user_suspendedAt u = uw_suspendedAt uw"
    by (simp add: user_where_holds_def)
  also have "\<dots> = uw_suspendedAt (userWhere_text (ctx_actor c) (ctx_query c))"
    using scope_keeps_base(2)[OF S] .
  also have "\<dots> = None"
    by (simp add: userWhere_text_def Let_def)
  finally show "user_suspendedAt u = None" .
qed

text \<open>
  In the sample workspace the suspended Sue is a member of Ann's group Staff, and the
  response to Ann holds Ann and Bob only.
\<close>

theorem suspended_users_never_returned_witness:
  "map_sum id body_users (mention sample_env (request user_ann None 0 25))
     = Inr [user_ann, user_bob]
   \<and> user_suspendedAt user_ann = None \<and> user_suspendedAt user_bob = None
   \<and> user_suspendedAt user_sue = Some 1"
proof -
  obtain b where b: "mention sample_env (request user_ann None 0 25) = Inr b"
    and us: "body_users b = [user_ann, user_bob]"
    using sample_ann_no_query by blast
  from suspended_users_never_returned[OF b] us
  have "user_suspendedAt user_ann = None \<and> user_suspendedAt user_bob = None" by simp
  with b us show ?thesis by (simp add: user_sue_def)
qed

text \<open>
  Claim C4. For every query and every scope decision (restricted or not), a group whose
  \<open>disableMentions\<close> flag is true never appears in the returned group result set.
\<close>

theorem groups_with_mentions_disabled_never_returned:
  assumes "mention e c = Inr b"
  shows "\<forall>g \<in> set (body_groups b). \<not> group_disableMentions g"
proof
  fix g assume g: "g \<in> set (body_groups b)"
  from assms obtain G uw gw where
    S: "scope e (ctx_actor c) (restrictDirectory (ctx_actor c)) G
       (userWhere_text (ctx_actor c) (ctx_query c))
       (groupWhere_text (ctx_actor c) (ctx_query c)) = Inr (uw, gw)"
    and U: "body_groups b = Group_findAll (pg e) (Group_table e) gw (replacement (ctx_query c))
                (offset (ctx_pagination c)) (limit (ctx_pagination c))"
    by (rule mention_InrE)
  from g U have "group_where_holds (pg e) gw (replacement (ctx_query c)) g"
    using set_Group_findAll by fastforce
  then have "group_disableMentions g = gw_disableMentions gw"
    by (simp add: group_where_holds_def)
  also have "\<dots> = gw_disableMentions (groupWhere_text (ctx_actor c) (ctx_query c))"
    using scope_keeps_base(5)[OF S] .
  also have "\<dots> = False"
    by (simp add: groupWhere_text_def Let_def)
  finally show "\<not> group_disableMentions g" by simp
qed

text \<open>
  Ann belongs to Staff and to Quiet; Quiet has mentions disabled and is not returned.
\<close>

theorem groups_with_mentions_disabled_never_returned_witness:
  "map_sum id body_groups (mention sample_env (request user_ann None 0 25))
     = Inr [group_staff]
   \<and> \<not> group_disableMentions group_staff \<and> group_disableMentions group_quiet"
proof -
  obtain b where b: "mention sample_env (request user_ann None 0 25) = Inr b"
    and gs: "body_groups b = [group_staff]"
    using sample_ann_no_query by blast
  from groups_with_mentions_disabled_never_returned[OF b] gs
  have "\<not> group_disableMentions group_staff" by simp
  with b gs show ?thesis by (simp add: group_quiet_def group_row_def)
qed

subsection \<open>The text filter\<close>




text \<open>
  Claim C7, as amended. For the query \<open>%\<close>, when no lookup of the handler is rejected, the
  endpoint answers with at most \<^verbatim>\<open>limit\<close> users and at most \<^verbatim>\<open>limit\<close> groups; the \<open>%\<close> of
  the query is read by \<open>LIKE\<close> as a wildcard, so the text filter holds for every value of
  a column.
\<close>

theorem percent_query:
  assumes "ctx_query c = Some (ucs ''%'')"
    and "store_fault e = (\<lambda>_. None)"
    and "\<not> isl (if restrictDirectory (ctx_actor c) then groupIds e (ctx_actor c)
                  else Inr [])"
    and "\<not> isl (searchTitlesForUser e (ctx_actor c) (ctx_query c)
                  (offset (ctx_pagination c)) (limit (ctx_pagination c)) [Published])"
    and "\<not> isl (searchCollectionsForUser e (ctx_actor c) (ctx_query c)
                  (offset (ctx_pagination c)) (limit (ctx_pagination c)))"
  shows "(\<exists>b. mention e c = Inr b
            \<and> length (body_users b) \<le> limit (ctx_pagination c)
            \<and> length (body_groups b) \<le> limit (ctx_pagination c))
       \<and> text_match (pg e) col (replacement (ctx_query c))"
proof -
  let ?a = "ctx_actor c"
  obtain G where G: "(if restrictDirectory ?a then groupIds e ?a else Inr []) = Inr G"
    using not_isl_Inr[OF assms(3)] by blast
  obtain uw gw where S: "scope e ?a (restrictDirectory ?a) G (userWhere_text ?a (ctx_query c))
       (groupWhere_text ?a (ctx_query c)) = Inr (uw, gw)"
    using scope_succeeds[of e] assms(2) by fastforce
  obtain ds where D: "searchTitlesForUser e ?a (ctx_query c)
                  (offset (ctx_pagination c)) (limit (ctx_pagination c)) [Published] = Inr ds"
    using not_isl_Inr[OF assms(4)] by blast
  obtain cs where C: "searchCollectionsForUser e ?a (ctx_query c)
                  (offset (ctx_pagination c)) (limit (ctx_pagination c)) = Inr cs"
    using not_isl_Inr[OF assms(5)] by blast
  have F: "fan_out e c uw gw = Inr (ds,
      User_findAll (pg e) (User_table e) uw (replacement (ctx_query c))
                (offset (ctx_pagination c)) (limit (ctx_pagination c)),
      Group_findAll (pg e) (Group_table e) gw (replacement (ctx_query c))
                (offset (ctx_pagination c)) (limit (ctx_pagination c)), cs)"
    using D C assms(2) by (simp add: fan_out_def Let_def Promise_all_def store_result_def)
  have M: "mention e c = Inr (assemble e c ds
      (User_findAll (pg e) (User_table e) uw (replacement (ctx_query c))
                (offset (ctx_pagination c)) (limit (ctx_pagination c)))
      (Group_findAll (pg e) (Group_table e) gw (replacement (ctx_query c))
                (offset (ctx_pagination c)) (limit (ctx_pagination c))) cs)"
    using G S F by (simp add: mention_def Let_def)
  have "ucs ''%'' = [pct]" by (simp add: ucs_def pct_def)
  then have "text_match (pg e) col (replacement (ctx_query c))"
    using assms(1) text_match_pct by simp
  then show ?thesis
    using M by (simp add: body_users_assemble body_groups_assemble
                  length_User_findAll length_Group_findAll)
qed

text \<open>Bob asks for \<open>%\<close> with a limit of two in the sample workspace.\<close>

theorem percent_query_witness:
  "map_sum id body_users (mention sample_env (request user_bob (Some ''%'') 0 2))
     = Inr [user_ann, user_bob]
   \<and> text_match (pg sample_env) (user_name user_bob) (replacement (Some (ucs ''%'')))"
proof -
  let ?c = "request user_bob (Some ''%'') 0 2"
  have "ctx_query ?c = Some (ucs ''%'')" by (simp add: request_def)
  moreover have "store_fault sample_env = (\<lambda>_. None)" by (simp add: sample_env_def)
  moreover have "\<not> isl (if restrictDirectory (ctx_actor ?c)
      then groupIds sample_env (ctx_actor ?c) else Inr [])"
    by (simp add: sample_env_def)
  moreover have "\<not> isl (searchTitlesForUser sample_env (ctx_actor ?c) (ctx_query ?c)
                  (offset (ctx_pagination ?c)) (limit (ctx_pagination ?c)) [Published])"
    by (simp add: sample_env_def)
  moreover have "\<not> isl (searchCollectionsForUser sample_env (ctx_actor ?c) (ctx_query ?c)
                  (offset (ctx_pagination ?c)) (limit (ctx_pagination ?c)))"
    by (simp add: sample_env_def)
  ultimately have "text_match (pg sample_env) (user_name user_bob) (replacement (ctx_query ?c))"
    using percent_query[of ?c sample_env "user_name user_bob"] by blast
  then have "text_match (pg sample_env) (user_name user_bob) (replacement (Some (ucs ''%'')))"
    by (simp add: request_def)
  moreover have "map_sum id body_users (mention sample_env ?c) = Inr [user_ann, user_bob]"
    by code_simp
  ultimately show ?thesis by simp
qed

text \<open>
  Claim C7 as stated says that the \<open>%\<close> of the query is an ordinary character of a
  substring. In the sample workspace the query \<open>%\<close> returns every user of the team that is
  not suspended, among them Gil, whose name has no \<open>%\<close> and who has no email.
\<close>

theorem percent_matches_names_without_percent:
  "map_sum id body_users (mention sample_env (request user_bob (Some ''%'') 0 25))
     = Inr [user_ann, user_bob, user_gil, user_jose]
   \<and> pct \<notin> set (user_name user_gil) \<and> user_email user_gil = None"
  by code_simp

subsection \<open>The scope of the directory\<close>

text \<open>
  Claim C3. Directory restriction applies if and only if the actor's role is Viewer or
  Guest and the team preference \<open>RestrictExternalDirectory\<close> is truthy. For an actor with
  role Member or Admin it never applies, whatever the team preference; an actor without a
  loaded team, or whose team does not store the preference, is not restricted.
\<close>

theorem restriction_applies_iff:
  "(restrictDirectory a \<longleftrightarrow>
      (user_role a = Viewer \<or> user_role a = Guest) \<and>
      (\<exists>t. user_team a = Some t \<and> getPreference t RestrictExternalDirectory))
   \<and> \<not> restrictDirectory (a\<lparr>user_role := Member\<rparr>)
   \<and> \<not> restrictDirectory (a\<lparr>user_role := Admin\<rparr>)
   \<and> \<not> restrictDirectory (a\<lparr>user_team := None\<rparr>)
   \<and> \<not> restrictDirectory
         (a\<lparr>user_team := Some (t\<lparr>preferences :=
               filter (\<lambda>kv. fst kv \<noteq> RestrictExternalDirectory) (preferences t)\<rparr>)\<rparr>)"
proof -
  have "map_of (filter (\<lambda>kv. fst kv \<noteq> k) xs) k = None" for k :: TeamPreference
    and xs :: "(TeamPreference \<times> bool) list"
    by (induction xs) auto
  then show ?thesis
    by (simp add: restrictDirectory_iff getPreference_def)
qed

text \<open>
  In the sample workspace the viewer Ann and the guest Gil are restricted and the member
  Bob is not; neither is Ann's row as the store returns it, without the team loaded.
\<close>

theorem restriction_applies_iff_witness:
  "restrictDirectory (ctx_actor (request user_ann None 0 25))
   \<and> restrictDirectory (ctx_actor (request user_gil None 0 25))
   \<and> \<not> restrictDirectory (ctx_actor (request user_bob None 0 25))
   \<and> \<not> restrictDirectory user_ann"
proof -
  have "user_role (ctx_actor (request user_ann None 0 25)) = Viewer"
    "user_role (ctx_actor (request user_gil None 0 25)) = Guest"
    "user_role (ctx_actor (request user_bob None 0 25)) = Member"
    "user_team (ctx_actor (request u None 0 25)) = Some team_T1"
    "getPreference team_T1 RestrictExternalDirectory"
    "user_team user_ann = None" for u
    by (simp_all add: request_def user_ann_def user_gil_def user_bob_def user_row_def
          team_T1_def getPreference_def)
  then show ?thesis
    using restriction_applies_iff[of "ctx_actor (request user_ann None 0 25)"]
      restriction_applies_iff[of "ctx_actor (request user_gil None 0 25)"]
      restriction_applies_iff[of "ctx_actor (request user_bob None 0 25)"]
      restriction_applies_iff[of user_ann]
    by simp
qed

text \<open>
  Claim C1, as amended. For an actor with role Viewer or Guest whose team preference
  \<open>RestrictExternalDirectory\<close> is true and whose group set is empty, every returned user is
  a row of the actor's own id, and no group is returned, whatever the query text. The
  returned users are exactly the actor's row when that row is the only one of its id,
  passes the base and the text filter, and the page starts at offset 0 with a positive
  limit.
\<close>

theorem no_groups_only_self:
  assumes role: "user_role (ctx_actor c) = Viewer \<or> user_role (ctx_actor c) = Guest"
    and team: "user_team (ctx_actor c) = Some t"
    and pref: "getPreference t RestrictExternalDirectory"
    and G: "groupIds e (ctx_actor c) = Inr []"
    and M: "mention e c = Inr b"
  shows "(\<forall>u \<in> set (body_users b). u \<in> set (User_table e) \<and> user_id u = user_id (ctx_actor c))
       \<and> body_groups b = []
       \<and> (filter (\<lambda>u. user_id u = user_id (ctx_actor c)) (User_table e) = [a]
            \<and> user_where_holds (pg e) (userWhere_text (ctx_actor c) (ctx_query c))
                  (replacement (ctx_query c)) a
            \<and> offset (ctx_pagination c) = 0 \<and> 0 < limit (ctx_pagination c)
          \<longrightarrow> body_users b = [a])"
proof -
  let ?a = "ctx_actor c" and ?p = "replacement (ctx_query c)"
  let ?w = "userWhere_text ?a (ctx_query c)"
  have R: "restrictDirectory ?a"
    using role team pref by (auto simp: restrictDirectory_iff)
  from R G M obtain uw gw where
    S: "scope e ?a True [] ?w (groupWhere_text ?a (ctx_query c)) = Inr (uw, gw)"
    and U: "body_users b = User_findAll (pg e) (User_table e) uw ?p
                (offset (ctx_pagination c)) (limit (ctx_pagination c))"
    and Gr: "body_groups b = Group_findAll (pg e) (Group_table e) gw ?p
                (offset (ctx_pagination c)) (limit (ctx_pagination c))"
    by (rule mention_restricted_InrE)
  from S have uw: "uw = ?w\<lparr>uw_id := Some (Eq (user_id ?a))\<rparr>"
    and gw: "gw = (groupWhere_text ?a (ctx_query c))\<lparr>gw_id := Some (In [])\<rparr>"
    by (simp_all add: scope_no_groups)
  have H: "user_where_holds (pg e) uw ?p u \<longleftrightarrow> user_where_holds (pg e) ?w ?p u \<and> user_id u = user_id ?a"
    for u
    unfolding uw user_where_holds_id[where w = ?w] userWhere_text_no_id by simp
  have 1: "\<forall>u \<in> set (body_users b). u \<in> set (User_table e) \<and> user_id u = user_id ?a"
    using set_User_findAll[of "pg e" "User_table e" uw ?p] U H by auto
  have "filter (group_where_holds (pg e) gw ?p) (Group_table e) = []"
    by (simp add: gw group_where_holds_def)
  then have 2: "body_groups b = []"
    by (simp add: Gr Group_findAll_def)
  have 3: "body_users b = [a]"
    if a: "filter (\<lambda>u. user_id u = user_id ?a) (User_table e) = [a]"
      and h: "user_where_holds (pg e) ?w ?p a"
      and o: "offset (ctx_pagination c) = 0" and l: "0 < limit (ctx_pagination c)"
  proof -
    have "filter (user_where_holds (pg e) uw ?p) (User_table e)
            = filter (user_where_holds (pg e) ?w ?p)
                (filter (\<lambda>u. user_id u = user_id ?a) (User_table e))"
      unfolding filter_filter by (rule filter_cong) (auto simp: H)
    also have "\<dots> = [a]" using a h by simp
    finally show ?thesis using o l by (simp add: U User_findAll_def take_Cons')
  qed
  from 1 2 3 show ?thesis by blast
qed

text \<open>Gil, a guest without groups, asks without a query and gets himself and no group.\<close>

theorem no_groups_only_self_witness:
  "map_sum id (\<lambda>b. (body_users b, body_groups b))
     (mention sample_env (request user_gil None 0 25)) = Inr ([user_gil], [])
   \<and> user_id user_gil = user_id (ctx_actor (request user_gil None 0 25))"
proof -
  let ?c = "request user_gil None 0 25"
  obtain b where b: "mention sample_env ?c = Inr b"
    using sample_gil_no_query by blast
  have h: "user_role (ctx_actor ?c) = Viewer \<or> user_role (ctx_actor ?c) = Guest"
    "user_team (ctx_actor ?c) = Some team_T1"
    "getPreference team_T1 RestrictExternalDirectory"
    "groupIds sample_env (ctx_actor ?c) = Inr []"
    by (simp_all add: request_def user_gil_def user_row_def team_T1_def getPreference_def
          sample_env_def)
  have f: "filter (\<lambda>u. user_id u = user_id (ctx_actor ?c)) (User_table sample_env) = [user_gil]"
    by code_simp
  have w: "user_where_holds (pg sample_env) (userWhere_text (ctx_actor ?c) (ctx_query ?c))
             (replacement (ctx_query ?c)) user_gil"
    by code_simp
  have o: "offset (ctx_pagination ?c) = 0 \<and> 0 < limit (ctx_pagination ?c)"
    by (simp add: request_def)
  note T = no_groups_only_self[OF h b, of user_gil]
  from T have "body_groups b = []" by (rule conjunct1[OF conjunct2])
  moreover have "body_users b = [user_gil]"
    by (rule mp[OF conjunct2[OF conjunct2[OF T]]]) (rule conjI[OF f conjI[OF w o]])
  ultimately show ?thesis using b by (simp add: request_def)
qed

text \<open>
  Claim C1 as stated says that the users returned are exactly the actor, independent of
  the query text. The text filter stays part of the user predicate in this branch: Gil
  asks for \<open>zzz\<close>, which matches neither his name nor an email, and gets no user at all.
\<close>

theorem no_match_no_self:
  "(user_role (ctx_actor (request user_gil (Some ''zzz'') 0 25)) = Guest
    \<and> user_team (ctx_actor (request user_gil (Some ''zzz'') 0 25)) = Some team_T1
    \<and> getPreference team_T1 RestrictExternalDirectory
    \<and> groupIds sample_env (ctx_actor (request user_gil (Some ''zzz'') 0 25)) = Inr [])
   \<and> user_gil \<in> set (User_table sample_env)
   \<and> user_id user_gil = user_id (ctx_actor (request user_gil (Some ''zzz'') 0 25))
   \<and> map_sum id body_users (mention sample_env (request user_gil (Some ''zzz'') 0 25))
       = Inr []
   \<and> map_sum id body_users (mention sample_env (request user_gil (Some ''zzz'') 0 25))
       \<noteq> Inr [user_gil]"
  by code_simp

text \<open>
  Claim C2. For an actor with role Viewer or Guest whose team preference
  \<open>RestrictExternalDirectory\<close> is true and whose group set \<open>G\<close> is non-empty, every returned
  user is the actor or a member of some group in \<open>G\<close>, and every returned group is in \<open>G\<close>.
\<close>

theorem same_groups_only:
  assumes role: "user_role (ctx_actor c) = Viewer \<or> user_role (ctx_actor c) = Guest"
    and team: "user_team (ctx_actor c) = Some t"
    and pref: "getPreference t RestrictExternalDirectory"
    and G: "groupIds e (ctx_actor c) = Inr G" and ne: "G \<noteq> []"
    and M: "mention e c = Inr b"
  shows "(\<forall>u \<in> set (body_users b).
            user_id u = user_id (ctx_actor c) \<or>
            (\<exists>gu \<in> set (GroupUser_table e).
               gu_groupId gu \<in> set G \<and> gu_userId gu = user_id u))
       \<and> (\<forall>g \<in> set (body_groups b). group_id g \<in> set G)"
proof -
  let ?a = "ctx_actor c" and ?p = "replacement (ctx_query c)"
  have R: "restrictDirectory ?a"
    using role team pref by (auto simp: restrictDirectory_iff)
  from R G M obtain uw gw where
    S: "scope e ?a True G (userWhere_text ?a (ctx_query c))
          (groupWhere_text ?a (ctx_query c)) = Inr (uw, gw)"
    and U: "body_users b = User_findAll (pg e) (User_table e) uw ?p
                (offset (ctx_pagination c)) (limit (ctx_pagination c))"
    and Gr: "body_groups b = Group_findAll (pg e) (Group_table e) gw ?p
                (offset (ctx_pagination c)) (limit (ctx_pagination c))"
    by (rule mention_restricted_InrE)
  note ids = scope_groups[OF ne S]
  have "user_id u = user_id ?a \<or>
        (\<exists>gu \<in> set (GroupUser_table e). gu_groupId gu \<in> set G \<and> gu_userId gu = user_id u)"
    if "u \<in> set (body_users b)" for u
  proof -
    from that U have "user_where_holds (pg e) uw ?p u"
      using set_User_findAll by fastforce
    then have "user_id u \<in> set (new_Set (map gu_userId
                  (GroupUser_findAll (GroupUser_table e) G)) @ [user_id ?a])"
      by (simp add: ids(1) user_where_holds_def)
    then show ?thesis
      by (auto simp: set_new_Set GroupUser_findAll_def)
  qed
  moreover have "group_id g \<in> set G" if "g \<in> set (body_groups b)" for g
  proof -
    from that Gr have "group_where_holds (pg e) gw ?p g"
      using set_Group_findAll by fastforce
    then show ?thesis by (simp add: ids(2) group_where_holds_def)
  qed
  ultimately show ?thesis by blast
qed

text \<open>
  Ann belongs to Staff (\<open>g1\<close>) and Quiet (\<open>g3\<close>): she gets herself, Bob of Staff, and the
  group Staff.
\<close>

theorem same_groups_only_witness:
  "map_sum id (\<lambda>b. (body_users b, body_groups b))
     (mention sample_env (request user_ann None 0 25))
     = Inr ([user_ann, user_bob], [group_staff])
   \<and> user_id user_ann = user_id (ctx_actor (request user_ann None 0 25))
   \<and> list_ex (\<lambda>gu. gu_groupId gu \<in> set [''g1'', ''g3''] \<and> gu_userId gu = user_id user_bob)
        (GroupUser_table sample_env)
   \<and> group_id group_staff \<in> set [''g1'', ''g3'']"
proof -
  let ?c = "request user_ann None 0 25"
  obtain b where b: "mention sample_env ?c = Inr b"
    and us: "body_users b = [user_ann, user_bob]" and gs: "body_groups b = [group_staff]"
    using sample_ann_no_query by blast
  have h: "user_role (ctx_actor ?c) = Viewer \<or> user_role (ctx_actor ?c) = Guest"
    "user_team (ctx_actor ?c) = Some team_T1"
    "getPreference team_T1 RestrictExternalDirectory"
    "groupIds sample_env (ctx_actor ?c) = Inr [''g1'', ''g3'']"
    "[''g1'', ''g3''] \<noteq> []"
    by (simp_all add: request_def user_ann_def user_row_def team_T1_def getPreference_def
          sample_env_def)
  have n: "user_id user_bob \<noteq> user_id (ctx_actor ?c)"
    "user_id user_ann = user_id (ctx_actor ?c)"
    by (simp_all add: request_def user_ann_def user_bob_def user_row_def)
  from same_groups_only[OF h b] us gs n
  have "list_ex (\<lambda>gu. gu_groupId gu \<in> set [''g1'', ''g3''] \<and> gu_userId gu = user_id user_bob)
          (GroupUser_table sample_env) \<and> group_id group_staff \<in> set [''g1'', ''g3'']"
    by (simp add: list_ex_iff)
  with b us gs n show ?thesis by simp
qed

text \<open>
  Claim C10, as amended. Under every scope decision the \<^verbatim>\<open>id\<close> clause that the scope step
  puts into the user predicate admits the actor's id, so a row with the actor's id that
  passes the base and the text filter satisfies the constructed predicate. The endpoint
  returns the page of the selected rows that offset and limit cut out: the actor's row is
  in the response when the offset is 0 and the limit is at least the number of users that
  pass the base and the text filter.
\<close>

theorem actor_passes_scope_filter:
  assumes a: "user_id a = user_id (ctx_actor c)"
  shows "(\<forall>p r G uw gw.
            user_where_holds (pg e) (userWhere_text (ctx_actor c) (ctx_query c)) p a
            \<and> scope e (ctx_actor c) r G (userWhere_text (ctx_actor c) (ctx_query c))
                  (groupWhere_text (ctx_actor c) (ctx_query c)) = Inr (uw, gw)
            \<longrightarrow> id_holds (uw_id uw) (user_id (ctx_actor c)) \<and> user_where_holds (pg e) uw p a)
       \<and> (\<forall>b. mention e c = Inr b
              \<and> a \<in> set (User_table e)
              \<and> user_where_holds (pg e) (userWhere_text (ctx_actor c) (ctx_query c))
                    (replacement (ctx_query c)) a
              \<and> offset (ctx_pagination c) = 0
              \<and> length (filter (user_where_holds (pg e)
                           (userWhere_text (ctx_actor c) (ctx_query c))
                           (replacement (ctx_query c))) (User_table e))
                  \<le> limit (ctx_pagination c)
            \<longrightarrow> a \<in> set (body_users b))"
proof -
  let ?d = "pg e" and ?a = "ctx_actor c" and ?q = "ctx_query c"
  let ?w = "userWhere_text ?a ?q" and ?p = "replacement ?q"
  have P: "id_holds (uw_id uw) (user_id ?a) \<and> user_where_holds ?d uw p a"
    if h: "user_where_holds ?d ?w p a"
      and S: "scope e ?a r G ?w (groupWhere_text ?a ?q) = Inr (uw, gw)" for p r G uw gw
  proof -
    have i: "id_holds (uw_id uw) (user_id ?a)"
      using S
      by (auto simp: scope_def store_result_def Let_def userWhere_text_def
               split: if_splits option.splits)
    then show ?thesis
      using h a scope_keeps_base(1,2,3)[OF S] by (simp add: user_where_holds_def)
  qed
  have E: "a \<in> set (body_users b)"
    if M: "mention e c = Inr b" and t: "a \<in> set (User_table e)"
      and h: "user_where_holds ?d ?w ?p a" and o: "offset (ctx_pagination c) = 0"
      and l: "length (filter (user_where_holds ?d ?w ?p) (User_table e))
                \<le> limit (ctx_pagination c)" for b
  proof -
    from M obtain G uw gw where
      S: "scope e ?a (restrictDirectory ?a) G ?w (groupWhere_text ?a ?q) = Inr (uw, gw)"
      and U: "body_users b = User_findAll ?d (User_table e) uw ?p
                (offset (ctx_pagination c)) (limit (ctx_pagination c))"
      by (rule mention_InrE)
    have ha: "user_where_holds ?d uw ?p a" using P[OF h S] by simp
    have "user_where_holds ?d ?w ?p u" if "user_where_holds ?d uw ?p u" for u
      using that scope_keeps_base(1,2,3)[OF S]
      by (simp add: user_where_holds_def userWhere_text_def Let_def)
    then have "length (filter (user_where_holds ?d uw ?p) (User_table e))
                 \<le> length (filter (user_where_holds ?d ?w ?p) (User_table e))"
      by (rule filter_narrower_shorter)
    with l have "length (filter (user_where_holds ?d uw ?p) (User_table e))
                   \<le> limit (ctx_pagination c)"
      by simp
    then have "body_users b = sort_key user_name (filter (user_where_holds ?d uw ?p) (User_table e))"
      using o by (simp add: U User_findAll_def)
    with t ha show ?thesis by simp
  qed
  from P E show ?thesis by blast
qed

text \<open>
  Ann, restricted to her two groups, asks for \<open>an\<close> from offset 0: her own row is returned.
\<close>

theorem actor_passes_scope_filter_witness:
  "map_sum id body_users (mention sample_env (request user_ann (Some ''an'') 0 25))
     = Inr [user_ann]
   \<and> user_id user_ann = user_id (ctx_actor (request user_ann (Some ''an'') 0 25))
   \<and> user_ann \<in> set (User_table sample_env)"
proof -
  let ?c = "request user_ann (Some ''an'') 0 25"
  let ?w = "userWhere_text (ctx_actor ?c) (ctx_query ?c)"
  have r: "map_sum id body_users (mention sample_env ?c) = Inr [user_ann]"
    by code_simp
  from map_sum_eq_InrD[OF r]
  obtain b where M: "mention sample_env ?c = Inr b" and us: "body_users b = [user_ann]"
    by auto
  have a: "user_id user_ann = user_id (ctx_actor ?c)"
    by (simp add: request_def)
  have t: "user_ann \<in> set (User_table sample_env)"
    by (simp add: sample_env_def)
  have h: "user_where_holds (pg sample_env) ?w (replacement (ctx_query ?c)) user_ann"
    by code_simp
  have o: "offset (ctx_pagination ?c) = 0" by (simp add: request_def)
  have l: "length (filter (user_where_holds (pg sample_env) ?w (replacement (ctx_query ?c)))
                (User_table sample_env)) \<le> limit (ctx_pagination ?c)"
    by code_simp
  note T = actor_passes_scope_filter[OF a, of sample_env]
  from conjunct2[OF T] M t h o l have "user_ann \<in> set (body_users b)" by blast
  with r a t show ?thesis by simp
qed

text \<open>
  Claim C10 as stated says that the endpoint never leaves the actor out of the user
  suggestions. The predicate admits the actor, but the response is one page of the rows it
  selects: Ann's row passes every filter, and with offset 1 the response holds Bob only.
\<close>

theorem actor_off_the_page:
  "user_ann \<in> set (User_table sample_env)
   \<and> user_id user_ann = user_id (ctx_actor (request user_ann None 1 25))
   \<and> user_where_holds (pg sample_env)
        (userWhere_text (ctx_actor (request user_ann None 1 25))
           (ctx_query (request user_ann None 1 25)))
        (replacement (ctx_query (request user_ann None 1 25))) user_ann
   \<and> map_sum id body_users (mention sample_env (request user_ann None 1 25)) = Inr [user_bob]
   \<and> user_ann \<notin> set [user_bob]"
  by code_simp

subsection \<open>Failure of a lookup\<close>

text \<open>
  Claim C8. If any one of the four fan-out lookups (document search, user lookup, group
  lookup, collection search) fails, the whole operation fails: the handler returns an
  error and no response body. The fan-out itself is rejected with the reason of the
  rejected lookup that settles first, and that reason is what the handler returns, unless
  one of the two lookups it makes before the fan-out for a restricted actor has already
  failed.
\<close>

theorem one_failed_lookup_fails_the_request:
  assumes "lookup_rejections e c \<noteq> []"
  shows "(\<exists>err. mention e c = Inl err)
       \<and> (\<forall>uw gw. fan_out e c uw gw
             = Inl (first_rejection (settledAt e) (lookup_rejections e c)))
       \<and> (\<exists>l. (l, first_rejection (settledAt e) (lookup_rejections e c))
                 \<in> set (lookup_rejections e c)
              \<and> (\<forall>r \<in> set (lookup_rejections e c). settledAt e l \<le> settledAt e (fst r)))
       \<and> (mention e c = Inl (first_rejection (settledAt e) (lookup_rejections e c))
          \<or> restrictDirectory (ctx_actor c)
            \<and> (isl (groupIds e (ctx_actor c)) \<or> store_fault e GroupUser_call \<noteq> None))"
proof -
  let ?a = "ctx_actor c"
  let ?f = "first_rejection (settledAt e) (lookup_rejections e c)"
  note F = fan_out_rejected[OF assms]
  have 1: "\<exists>err. mention e c = Inl err"
    by (auto simp: mention_def Let_def F split: sum.splits)
  have 4: "mention e c = Inl ?f"
    if "\<not> (restrictDirectory ?a
            \<and> (isl (groupIds e ?a) \<or> store_fault e GroupUser_call \<noteq> None))"
  proof -
    have "\<not> isl (if restrictDirectory ?a then groupIds e ?a else Inr [])"
      using that by auto
    then obtain G where G: "(if restrictDirectory ?a then groupIds e ?a else Inr []) = Inr G"
      using not_isl_Inr by blast
    have "\<exists>uw gw. scope e ?a (restrictDirectory ?a) G (userWhere_text ?a (ctx_query c))
       (groupWhere_text ?a (ctx_query c)) = Inr (uw, gw)"
    proof (cases "restrictDirectory ?a")
      case True
      with that have "store_fault e GroupUser_call = None" by simp
      then show ?thesis by (rule scope_succeeds)
    next
      case False
      then show ?thesis by (simp add: scope_unrestricted)
    qed
    then obtain uw gw where "scope e ?a (restrictDirectory ?a) G
       (userWhere_text ?a (ctx_query c)) (groupWhere_text ?a (ctx_query c)) = Inr (uw, gw)"
      by blast
    with G F show ?thesis by (simp add: mention_def Let_def)
  qed
  from 1 F first_rejection_is_earliest[OF assms, of "settledAt e"] 4 show ?thesis
    by blast
qed

text \<open>
  In the failing workspace the user lookup and the collection search are both rejected and
  the collection search settles first: Bob's request fails with its reason.
\<close>

theorem one_failed_lookup_fails_the_request_witness:
  "lookup_rejections failing_env (request user_bob None 0 25)
     = [(Users, LookupFailure ''users''), (Collections, LookupFailure ''collections'')]
   \<and> mention failing_env (request user_bob None 0 25) = Inl (LookupFailure ''collections'')"
proof -
  let ?c = "request user_bob None 0 25"
  have r: "lookup_rejections failing_env ?c
     = [(Users, LookupFailure ''users''), (Collections, LookupFailure ''collections'')]"
    by code_simp
  then have ne: "lookup_rejections failing_env ?c \<noteq> []" by simp
  have f: "first_rejection (settledAt failing_env) (lookup_rejections failing_env ?c)
             = LookupFailure ''collections''"
    by code_simp
  have n: "\<not> restrictDirectory (ctx_actor ?c)"
    by code_simp
  from one_failed_lookup_fails_the_request[OF ne] n f
  have "mention failing_env ?c = Inl (LookupFailure ''collections'')"
    by simp
  with r show ?thesis by simp
qed

subsection \<open>Repeating a request\<close>

text \<open>
  Claim C9, as amended. The handler changes nothing, and its response is a function of the
  request and of the rows of the three tables, not of the order in which the store scans
  them, provided that no two users that the base predicate admits for the actor have the
  same name, and no two such groups: then two executions of the same request over the same
  rows produce identical results.
\<close>

theorem same_rows_same_response:
  assumes u: "mset us = mset (User_table e)" and g: "mset gs = mset (Group_table e)"
    and gu: "mset gus = mset (GroupUser_table e)"
    and du: "distinct (map user_name (filter (candidate_user (ctx_actor c)) (User_table e)))"
    and dg: "distinct (map group_name (filter (candidate_group (ctx_actor c)) (Group_table e)))"
  shows "mention (e\<lparr>User_table := us, Group_table := gs, GroupUser_table := gus\<rparr>) c
           = mention e c"
proof -
  let ?e = "e\<lparr>User_table := us, Group_table := gs, GroupUser_table := gus\<rparr>"
  let ?a = "ctx_actor c"
  let ?uw = "userWhere_text ?a (ctx_query c)" and ?gw = "groupWhere_text ?a (ctx_query c)"
  have gi: "(if restrictDirectory ?a then groupIds ?e ?a else Inr [])
              = (if restrictDirectory ?a then groupIds e ?a else Inr [])"
    by simp
  show ?thesis
  proof (cases "if restrictDirectory ?a then groupIds e ?a else Inr []")
    case (Inl err)
    then show ?thesis
      unfolding mention_steps[of ?e] mention_steps[of e] gi by simp
  next
    case (Inr G)
    have sg: "set gus = set (GroupUser_table e)" using gu by (rule mset_eq_setD)
    from scope_same_rows[OF sg, where us = us and gs = gs and a = ?a
        and r = "restrictDirectory ?a" and G = G and uw = ?uw and gw = ?gw]
    show ?thesis
    proof (elim disjE exE conjE)
      fix err
      assume "scope ?e ?a (restrictDirectory ?a) G ?uw ?gw = Inl err"
        "scope e ?a (restrictDirectory ?a) G ?uw ?gw = Inl err"
      then show ?thesis
        unfolding mention_steps[of ?e] mention_steps[of e] gi Inr sum.case by simp
    next
      fix uw1 uw2 gw'
      assume s1: "scope ?e ?a (restrictDirectory ?a) G ?uw ?gw = Inr (uw1, gw')"
        and s2: "scope e ?a (restrictDirectory ?a) G ?uw ?gw = Inr (uw2, gw')"
        and h: "user_where_holds (pg e) uw1 = user_where_holds (pg e) uw2"
      note k = scope_keeps_base[OF s2]
      have F: "fan_out ?e c uw1 gw' = fan_out e c uw2 gw'"
        using u g du dg h
      proof (rule fan_out_same_rows)
        show "uw_teamId uw2 = user_teamId ?a" "uw_suspendedAt uw2 = None"
          using k(1,2) by (simp_all add: userWhere_text_def Let_def)
        show "gw_teamId gw' = user_teamId ?a" "gw_disableMentions gw' = False"
          using k(4,5) by (simp_all add: groupWhere_text_def Let_def)
      qed
      have A: "assemble ?e c ds xs ys cs = assemble e c ds xs ys cs" for ds xs ys cs
        by (simp add: assemble_def)
      show ?thesis
        unfolding mention_steps[of ?e] mention_steps[of e] gi Inr sum.case s1 s2 prod.case F A
        by (rule refl)
    qed
  qed
qed

text \<open>
  Ann's request against the sample workspace and against the same tables scanned in the
  opposite order.
\<close>

theorem same_rows_same_response_witness:
  "mention (sample_env\<lparr>User_table := rev (User_table sample_env),
                       Group_table := rev (Group_table sample_env),
                       GroupUser_table := rev (GroupUser_table sample_env)\<rparr>)
     (request user_ann None 0 25)
   = mention sample_env (request user_ann None 0 25)
   \<and> distinct (map user_name (filter (candidate_user (ctx_actor (request user_ann None 0 25)))
        (User_table sample_env)))
   \<and> distinct (map group_name (filter (candidate_group (ctx_actor (request user_ann None 0 25)))
        (Group_table sample_env)))"
proof -
  let ?c = "request user_ann None 0 25"
  have du: "distinct (map user_name (filter (candidate_user (ctx_actor ?c))
        (User_table sample_env)))"
    by code_simp
  have dg: "distinct (map group_name (filter (candidate_group (ctx_actor ?c))
        (Group_table sample_env)))"
    by code_simp
  have "mset (rev xs) = mset xs" for xs :: "'a list" by simp
  from same_rows_same_response[OF this this this du dg] du dg show ?thesis by simp
qed

text \<open>
  Claim C9 as stated promises identical envelopes whenever inputs and data are the same.
  The users are ordered by name alone (\<^verbatim>\<open>order: [["name", "ASC"]]\<close>). With two users
  called Ann and a limit of one, the same rows scanned in the opposite order give the
  other Ann.
\<close>

theorem equal_names_depend_on_scan_order:
  "mset (rev (User_table twins_env)) = mset (User_table twins_env)
   \<and> map_sum id body_users (mention twins_env (request user_bob None 0 1)) = Inr [user_ann]
   \<and> map_sum id body_users
        (mention (twins_env\<lparr>User_table := rev (User_table twins_env)\<rparr>)
           (request user_bob None 0 1)) = Inr [user_anna]
   \<and> mention (twins_env\<lparr>User_table := rev (User_table twins_env)\<rparr>)
        (request user_bob None 0 1)
     \<noteq> mention twins_env (request user_bob None 0 1)"
proof -
  have "map_sum id body_users (mention twins_env (request user_bob None 0 1)) = Inr [user_ann]"
    by code_simp
  moreover have "map_sum id body_users
        (mention (twins_env\<lparr>User_table := rev (User_table twins_env)\<rparr>)
           (request user_bob None 0 1)) = Inr [user_anna]"
    by code_simp
  moreover have "[user_ann] \<noteq> [user_anna]"
    by (simp add: user_ann_def user_anna_def user_row_def)
  ultimately show ?thesis by auto
qed

end
